theory Spec2Isabelle
  imports Complex_Main "HOL-Library.Multiset" "HOL-Library.Log_Nat"
begin

section \<open>Python values and the exceptions the scripts can raise\<close>

text \<open>
  The scripts work on Python \<open>str\<close> lines, unbounded \<open>int\<close>s and floats. A line is a
  \<open>string\<close>, read as a list of code points below 256 (the logs are ASCII); in this
  range the digit class of \<open>re\<close> is \<open>[0-9]\<close>. An exception is a value of \<open>py_error\<close>, returned on
  the left of a sum.
\<close>

datatype py_error = ValueError | IndexError

text \<open>
  A Python float is either NaN or a finite number, \<open>Fin q\<close> for the value \<open>q\<close>. The
  loss percentage is computed as the double, each float operation rounded. A mean and a
  time span are one quotient each and are kept as the exact quotient.
\<close>

datatype pyfloat = NaN | Fin rat

subsection \<open>Character classes, \<open>str.strip\<close>, \<open>str.startswith\<close>, \<open>int\<close>\<close>

text \<open>
  The white space that \<open>str.strip\<close> removes and that the space class of \<open>re\<close>
  matches: the code points below 256 on which \<open>str.isspace\<close> holds.
\<close>

definition isspace :: "char \<Rightarrow> bool" where
  "isspace c = ((of_char c :: nat) \<in> {9, 10, 11, 12, 13, 28, 29, 30, 31, 32, 133, 160})"

definition isdigit09 :: "char \<Rightarrow> bool" where
  "isdigit09 c = (48 \<le> (of_char c :: nat) \<and> (of_char c :: nat) \<le> 57)"

definition py_strip :: "string \<Rightarrow> string" where
  "py_strip s = rev (dropWhile isspace (rev (dropWhile isspace s)))"

definition startswith :: "string \<Rightarrow> string \<Rightarrow> bool" where
  "startswith s p = (take (length p) s = p)"

text \<open>\<open>os.path.basename\<close>, for the separator \<open>/\<close>.\<close>

definition basename :: "string \<Rightarrow> string" where
  "basename p = rev (takeWhile (\<lambda>c. c \<noteq> CHR ''/'') (rev p))"

definition digits_value :: "string \<Rightarrow> int" where
  "digits_value ds = foldl (\<lambda>a c. 10 * a + (int (of_char c) - 48)) 0 ds"

text \<open>
  \<open>int(s)\<close> on a text made of \<open>-\<close> and digits, as the capturing groups give it: an
  optional sign and at least one digit, anything else raises ValueError (\<open>None\<close> here).
  The interpreter's limit on the number of digits of such a text is not modelled.
\<close>

definition py_int :: "string \<Rightarrow> int option" where
  "py_int s =
     (case s of
        [] \<Rightarrow> None
      | c # ds \<Rightarrow>
          if c = CHR ''-'' then
            (if ds \<noteq> [] \<and> list_all isdigit09 ds then Some (- digits_value ds) else None)
          else if list_all isdigit09 s then Some (digits_value s) else None)"

subsection \<open>The regular expressions of the scripts\<close>

text \<open>
  Every pattern of the scripts is a sequence of literal characters and greedy repetitions
  of one character class, one of them the capturing group. \<open>rmatch\<close> is the backtracking
  match of \<open>re.match\<close>: a repetition first takes the longest run and gives characters
  back one at a time; the result is the list of captured groups.
\<close>

datatype cls = Space | Digit | DashDigit | AnyChar

fun cls_mem :: "cls \<Rightarrow> char \<Rightarrow> bool" where
  "cls_mem Space c = isspace c"
| "cls_mem Digit c = isdigit09 c"
| "cls_mem DashDigit c = (c = CHR ''-'' \<or> isdigit09 c)"
| "cls_mem AnyChar c = (c \<noteq> CHR 0x0A)"

datatype item = Lit char | Rep cls nat bool

fun first_some :: "('a \<Rightarrow> 'b option) \<Rightarrow> 'a list \<Rightarrow> 'b option" where
  "first_some f [] = None"
| "first_some f (x # xs) = (case f x of Some r \<Rightarrow> Some r | None \<Rightarrow> first_some f xs)"

fun rmatch :: "item list \<Rightarrow> string \<Rightarrow> string list option" where
  "rmatch [] s = Some []"
| "rmatch (Lit c # its) s =
     (case s of [] \<Rightarrow> None | x # xs \<Rightarrow> if x = c then rmatch its xs else None)"
| "rmatch (Rep cl lo cap # its) s =
     first_some
       (\<lambda>j. map_option (\<lambda>gs. if cap then take j s # gs else gs) (rmatch its (drop j s)))
       (rev [lo ..< Suc (length (takeWhile (cls_mem cl) s))])"

definition lit :: "string \<Rightarrow> item list" where
  "lit s = map Lit s"

definition re_match :: "item list \<Rightarrow> string \<Rightarrow> string list option" where
  "re_match p s = rmatch p s"

definition re_search :: "item list \<Rightarrow> string \<Rightarrow> string list option" where
  "re_search p s = first_some (\<lambda>i. rmatch p (drop i s)) [0 ..< Suc (length s)]"

text \<open>\<open>int(m.group(1))\<close>\<close>

definition int_group1 :: "string list \<Rightarrow> py_error + int" where
  "int_group1 gs =
     (case gs of
        [] \<Rightarrow> Inl IndexError
      | g # _ \<Rightarrow> (case py_int g of None \<Rightarrow> Inl ValueError | Some v \<Rightarrow> Inr v))"

definition scan_start_re :: "item list" where
  "scan_start_re = lit ''=== Scan cycle #'' @ [Rep Digit 1 True] @ lit '' START''"

definition rx_unix_re :: "item list" where
  "rx_unix_re = lit ''RX Unix ms (ESP32):'' @ [Rep Space 0 False, Rep Digit 1 True]"

definition tx_counter_re :: "item list" where
  "tx_counter_re = lit ''TX counter (payload):'' @ [Rep Space 0 False, Rep Digit 1 True]"

definition tx_unix_re :: "item list" where
  "tx_unix_re = lit ''TX Unix ms (payload):'' @ [Rep Space 0 False, Rep Digit 1 True]"

definition delta_re :: "item list" where
  "delta_re = lit ''Delta = '' @ [Rep AnyChar 0 False] @ lit '':''
      @ [Rep Space 0 False, Rep DashDigit 1 True, Rep Space 1 False] @ lit ''ms''"

definition rssi_re :: "item list" where
  "rssi_re = lit ''RSSI:''
      @ [Rep Space 0 False, Rep DashDigit 1 True, Rep Space 0 False] @ lit ''dBm''"

definition target_marker :: string where
  "target_marker = ''=== TARGET BLE DEVICE DETECTED ===''"

section \<open>\<open>parse_log\<close> of analyze_ble_logs.py and analyze_ble_logs_combine.py\<close>

text \<open>
  The dict of one packet. A key that the dict does not hold is \<open>None\<close>; \<open>scan_cycle\<close> is
  always a key, its value is Python's \<open>None\<close> until a scan-cycle marker was read.
\<close>

record packet =
  file_name :: "string option"
  scan_cycle :: "int option"
  rx_unix_ms :: "int option"
  tx_counter :: "int option"
  tx_unix_ms :: "int option"
  delta_ms :: "int option"
  rssi_dbm :: "int option"

record pstate =
  records :: "packet list"
  cur_scan_cycle :: "int option"
  current :: "packet option"

definition new_packet :: "int option \<Rightarrow> packet" where
  "new_packet sc = \<lparr>file_name = None, scan_cycle = sc, rx_unix_ms = None, tx_counter = None,
     tx_unix_ms = None, delta_ms = None, rssi_dbm = None\<rparr>"

definition finalize :: "string \<Rightarrow> int option \<Rightarrow> packet \<Rightarrow> packet" where
  "finalize path sc cur = cur\<lparr>file_name := Some (basename path), scan_cycle := sc\<rparr>"

text \<open>\<open>if current and "rssi_dbm" in current: ... records.append(current)\<close>\<close>

definition flush_complete :: "string \<Rightarrow> pstate \<Rightarrow> packet list" where
  "flush_complete path st =
     (case current st of
        None \<Rightarrow> records st
      | Some cur \<Rightarrow>
          if rssi_dbm cur \<noteq> None
          then records st @ [finalize path (cur_scan_cycle st) cur]
          else records st)"

text \<open>The chain of field patterns, tried in the order of the source on an open record.\<close>

definition set_field :: "pstate \<Rightarrow> (int \<Rightarrow> packet) \<Rightarrow> string list \<Rightarrow> py_error + pstate" where
  "set_field st upd gs =
     (case int_group1 gs of Inl e \<Rightarrow> Inl e | Inr v \<Rightarrow> Inr (st\<lparr>current := Some (upd v)\<rparr>))"

definition parse_fields :: "string \<Rightarrow> pstate \<Rightarrow> packet \<Rightarrow> string \<Rightarrow> py_error + pstate" where
  "parse_fields path st cur line =
     (case re_match rx_unix_re line of
        Some gs \<Rightarrow> set_field st (\<lambda>v. cur\<lparr>rx_unix_ms := Some v\<rparr>) gs
      | None \<Rightarrow>
     (case re_match tx_counter_re line of
        Some gs \<Rightarrow> set_field st (\<lambda>v. cur\<lparr>tx_counter := Some v\<rparr>) gs
      | None \<Rightarrow>
     (case re_match tx_unix_re line of
        Some gs \<Rightarrow> set_field st (\<lambda>v. cur\<lparr>tx_unix_ms := Some v\<rparr>) gs
      | None \<Rightarrow>
     (case re_match delta_re line of
        Some gs \<Rightarrow> set_field st (\<lambda>v. cur\<lparr>delta_ms := Some v\<rparr>) gs
      | None \<Rightarrow>
     (case re_match rssi_re line of
        Some gs \<Rightarrow> set_field st (\<lambda>v. cur\<lparr>rssi_dbm := Some v\<rparr>) gs
      | None \<Rightarrow>
          if line = [] \<and> rssi_dbm cur \<noteq> None
          then Inr (st\<lparr>records := records st @ [finalize path (cur_scan_cycle st) cur],
                       current := None\<rparr>)
          else Inr st)))))"

text \<open>The body of the loop over the lines of the file.\<close>

definition parse_line :: "string \<Rightarrow> pstate \<Rightarrow> string \<Rightarrow> py_error + pstate" where
  "parse_line path st raw_line =
     (let line = py_strip raw_line in
      case re_match scan_start_re line of
        Some gs \<Rightarrow>
          (case int_group1 gs of
             Inl e \<Rightarrow> Inl e
           | Inr v \<Rightarrow> Inr (st\<lparr>cur_scan_cycle := Some v\<rparr>))
      | None \<Rightarrow>
          if startswith line target_marker
          then Inr (st\<lparr>records := flush_complete path st,
                       current := Some (new_packet (cur_scan_cycle st))\<rparr>)
          else
            (case current st of
               None \<Rightarrow> Inr st
             | Some cur \<Rightarrow> parse_fields path st cur line))"

fun parse_lines :: "string \<Rightarrow> pstate \<Rightarrow> string list \<Rightarrow> py_error + pstate" where
  "parse_lines path st [] = Inr st"
| "parse_lines path st (l # ls) =
     (case parse_line path st l of Inl e \<Rightarrow> Inl e | Inr st' \<Rightarrow> parse_lines path st' ls)"

definition parse_log :: "string \<Rightarrow> string list \<Rightarrow> py_error + packet list" where
  "parse_log path raw_lines =
     (case parse_lines path \<lparr>records = [], cur_scan_cycle = None, current = None\<rparr> raw_lines of
        Inl e \<Rightarrow> Inl e
      | Inr st \<Rightarrow> Inr (flush_complete path st))"

section \<open>\<open>summarize_records\<close>\<close>

text \<open>
  What the summary prints for a session that has packets. The 16-bit counter span of
  analyze_ble_logs.py is computed there and used nowhere, so it is not a field.
\<close>

record report =
  first_counter :: int
  last_counter :: int
  duration_s :: pyfloat
  min_rssi :: "int option"
  max_rssi :: "int option"
  mean_delta :: pyfloat
  min_delta :: "int option"
  max_delta :: "int option"

text \<open>
  The returned tuple \<open>(n, mean_rssi, loss_count, loss_pct)\<close>, with the printed block;
  \<open>printed = None\<close> is the line "No packets found.".
\<close>

record summary =
  n_packets :: int
  mean_rssi :: pyfloat
  loss_count :: int
  loss_pct :: pyfloat
  printed :: "report option"

text \<open>\<open>r.get("tx_unix_ms", 0)\<close>, the sort key.\<close>

definition tx_key :: "packet \<Rightarrow> int" where
  "tx_key r = (case tx_unix_ms r of None \<Rightarrow> 0 | Some t \<Rightarrow> t)"

text \<open>
  \<open>sorted(records, key=...)\<close> is a stable sort; \<open>sort_key\<close> is the stable insertion
  sort, and a stable sort has one result.
\<close>

definition records_sorted :: "packet list \<Rightarrow> packet list" where
  "records_sorted recs = sort_key tx_key recs"

text \<open>\<open>[r[k] for r in records_sorted if k in r]\<close>\<close>

definition present :: "(packet \<Rightarrow> int option) \<Rightarrow> packet list \<Rightarrow> int list" where
  "present f rs = List.map_filter f rs"

definition mean :: "int list \<Rightarrow> pyfloat" where
  "mean vals = (if vals = [] then NaN else Fin (of_int (sum_list vals) / of_nat (length vals)))"

definition min_opt :: "int list \<Rightarrow> int option" where
  "min_opt vals = (case vals of [] \<Rightarrow> None | v # vs \<Rightarrow> Some (fold min vs v))"

definition max_opt :: "int list \<Rightarrow> int option" where
  "max_opt vals = (case vals of [] \<Rightarrow> None | v # vs \<Rightarrow> Some (fold max vs v))"

text \<open>\<open>counters[0]\<close> and \<open>counters[-1]\<close> raise IndexError on an empty list.\<close>

definition index_first :: "'a list \<Rightarrow> py_error + 'a" where
  "index_first xs = (case xs of [] \<Rightarrow> Inl IndexError | x # _ \<Rightarrow> Inr x)"

definition index_last :: "'a list \<Rightarrow> py_error + 'a" where
  "index_last xs = (if xs = [] then Inl IndexError else Inr (last xs))"

definition loss_count_of :: "int \<Rightarrow> int \<Rightarrow> int" where
  "loss_count_of expected_count n = max (expected_count - n) 0"

text \<open>
  The arithmetic of doubles that the loss percentage needs. \<open>round_double q\<close> is the
  double nearest to \<open>q\<close>, the tie going to the even significand: 53 bits of significand
  above \<open>2 ^ - 1022\<close>, the fixed step \<open>2 ^ - 1074\<close> below. \<open>ilog2 q\<close> is the binary
  exponent of a positive \<open>q\<close>. The true division of two ints gives the rounded quotient,
  the float product the rounded product. The quotient here is at most 1 and the product
  at most 100, so the upper end of the range plays no part.
\<close>

definition pow2 :: "int \<Rightarrow> rat" where
  "pow2 k = (if 0 \<le> k then 2 ^ nat k else 1 / 2 ^ nat (- k))"

definition ilog2 :: "rat \<Rightarrow> int" where
  "ilog2 q =
     (let a = fst (quotient_of q); b = snd (quotient_of q); d = bitlen a - bitlen b
      in if pow2 d \<le> q then d else d - 1)"

definition round_half_even :: "rat \<Rightarrow> int" where
  "round_half_even x =
     (let f = \<lfloor>x\<rfloor>; d = x - of_int f
      in if d < 1 / 2 then f
         else if 1 / 2 < d then f + 1
         else if even f then f else f + 1)"

definition round_double :: "rat \<Rightarrow> rat" where
  "round_double q =
     (if q = 0 then 0
      else let u = pow2 (max (ilog2 \<bar>q\<bar>) (- 1022) - 52)
           in of_int (round_half_even (q / u)) * u)"

definition loss_pct_of :: "int \<Rightarrow> int \<Rightarrow> pyfloat" where
  "loss_pct_of expected_count lc =
     (if expected_count > 0
      then Fin (round_double (round_double (of_int lc / of_int expected_count) * 100))
      else NaN)"

text \<open>
  \<open>(last_tx - first_tx) / 1000.0 if first_tx and last_tx else float("nan")\<close>: a value
  of \<open>.get("tx_unix_ms")\<close> is true when it is neither \<open>None\<close> nor 0.
\<close>

definition duration_of :: "int option \<Rightarrow> int option \<Rightarrow> pyfloat" where
  "duration_of first_tx last_tx =
     (case (first_tx, last_tx) of
        (Some f, Some l) \<Rightarrow> if f \<noteq> 0 \<and> l \<noteq> 0 then Fin (of_int (l - f) / 1000) else NaN
      | _ \<Rightarrow> NaN)"

text \<open>
  The part of \<open>summarize_records\<close> after the test for an empty list, the same text in
  both scripts. \<open>recs\<close> is not empty here.
\<close>

definition summary_body :: "packet list \<Rightarrow> int \<Rightarrow> py_error + summary" where
  "summary_body recs expected_count =
     (let rs = records_sorted recs;
          rssi_vals = present rssi_dbm rs;
          delta_vals = present delta_ms rs;
          counters = present tx_counter rs;
          n = int (length rs)
      in case index_first counters of
           Inl e \<Rightarrow> Inl e
         | Inr fc \<Rightarrow>
        (case index_last counters of
           Inl e \<Rightarrow> Inl e
         | Inr lc \<Rightarrow>
             Inr \<lparr>n_packets = n,
                  mean_rssi = mean rssi_vals,
                  loss_count = loss_count_of expected_count n,
                  loss_pct = loss_pct_of expected_count (loss_count_of expected_count n),
                  printed = Some \<lparr>first_counter = fc, last_counter = lc,
                     duration_s = duration_of (tx_unix_ms (hd rs)) (tx_unix_ms (last rs)),
                     min_rssi = min_opt rssi_vals, max_rssi = max_opt rssi_vals,
                     mean_delta = mean delta_vals,
                     min_delta = min_opt delta_vals, max_delta = max_opt delta_vals\<rparr>\<rparr>))"

text \<open>analyze_ble_logs_combine.py\<close>

definition summarize_records :: "packet list \<Rightarrow> int \<Rightarrow> py_error + summary" where
  "summarize_records recs expected_count =
     (if recs = []
      then Inr \<lparr>n_packets = 0, mean_rssi = NaN, loss_count = expected_count,
                loss_pct = Fin 100, printed = None\<rparr>
      else summary_body recs expected_count)"

text \<open>
  analyze_ble_logs.py: the expected count is the constant 200, and an empty list only
  prints "No packets found." and returns.
\<close>

definition summarize_records_single :: "packet list \<Rightarrow> py_error + summary option" where
  "summarize_records_single recs =
     (if recs = [] then Inr None
      else (case summary_body recs 200 of Inl e \<Rightarrow> Inl e | Inr s \<Rightarrow> Inr (Some s)))"

section \<open>\<open>plot_combined_rssi_vs_counter\<close>\<close>

fun digits_of :: "nat \<Rightarrow> string" where
  "digits_of n =
     (if n < 10 then [char_of (48 + n)]
      else digits_of (n div 10) @ [char_of (48 + n mod 10)])"

text \<open>\<open>str(i)\<close> of an int\<close>

definition str_int :: "int \<Rightarrow> string" where
  "str_int i = (if i < 0 then CHR ''-'' # digits_of (nat (- i)) else digits_of (nat i))"

text \<open>
  The loop over \<open>all_sequences\<close>, a list of \<open>(label, n_packets, x_list, y_list)\<close>, from
  the running \<open>current_offset\<close>: each series that is plotted, as
  \<open>(disp_label, xs, y_list)\<close>.
\<close>

fun combined_series ::
  "int \<Rightarrow> int \<Rightarrow> (string \<times> int \<times> int list \<times> int list) list
     \<Rightarrow> (string \<times> int list \<times> int list) list" where
  "combined_series expected_count current_offset [] = []"
| "combined_series expected_count current_offset ((label, n_pkts, x_list, y_list) # rest) =
     (let xs = map (\<lambda>i. current_offset + int i) [0 ..< length x_list];
          disp_label = label @ '' ('' @ str_int n_pkts @ ''/'' @ str_int expected_count @ '')''
      in (disp_label, xs, y_list)
           # combined_series expected_count
               (if xs \<noteq> [] then last xs + 5 else current_offset) rest)"

definition plot_combined_rssi_vs_counter ::
  "(string \<times> int \<times> int list \<times> int list) list \<Rightarrow> int
     \<Rightarrow> (string \<times> int list \<times> int list) list option" where
  "plot_combined_rssi_vs_counter all_sequences expected_count =
     (if all_sequences = [] then None
      else Some (combined_series expected_count 0 all_sequences))"

section \<open>\<open>serial_reader\<close> of live_rssi_plot.py\<close>

definition COUNTER_RE :: "item list" where
  "COUNTER_RE = lit ''TX counter (payload):'' @ [Rep Space 0 False, Rep Digit 1 True]"

definition RSSI_RE :: "item list" where
  "RSSI_RE = lit ''RSSI:''
      @ [Rep Space 0 False, Rep DashDigit 1 True, Rep Space 0 False] @ lit ''dBm''"

record live =
  current_counter :: "int option"
  current_rssi :: "int option"
  counters :: "int list"
  rssis :: "int list"

text \<open>
  The block under the lock: both deques take the new value, and when \<open>counters\<close> is
  longer than \<open>max_points\<close> both lose their leftmost value. Each deque holds the value
  just appended, so \<open>popleft\<close> cannot raise.
\<close>

definition buffer_append :: "int \<Rightarrow> int list \<times> int list \<Rightarrow> int \<times> int \<Rightarrow> int list \<times> int list" where
  "buffer_append max_points buf p =
     (let cs = fst buf @ [fst p]; rs = snd buf @ [snd p]
      in if int (length cs) > max_points then (tl cs, tl rs) else (cs, rs))"

text \<open>
  One turn of the loop on a line that was read. An exception of the turn is caught,
  logged, and the loop goes on with what was assigned before it.
\<close>

definition reader_step :: "int \<Rightarrow> live \<Rightarrow> string \<Rightarrow> live" where
  "reader_step max_points st line_bytes =
     (if line_bytes = [] then st
      else
        let line = py_strip line_bytes in
        case (case re_search COUNTER_RE line of
                None \<Rightarrow> Inr st
              | Some gs \<Rightarrow> (case int_group1 gs of
                             Inl e \<Rightarrow> Inl e
                           | Inr v \<Rightarrow> Inr (st\<lparr>current_counter := Some v\<rparr>))) of
          Inl e \<Rightarrow> st
        | Inr st1 \<Rightarrow>
        (case (case re_search RSSI_RE line of
                None \<Rightarrow> Inr st1
              | Some gs \<Rightarrow> (case int_group1 gs of
                             Inl e \<Rightarrow> Inl e
                           | Inr v \<Rightarrow> Inr (st1\<lparr>current_rssi := Some v\<rparr>))) of
          Inl (e :: py_error) \<Rightarrow> st1
        | Inr st2 \<Rightarrow>
            (case (current_counter st2, current_rssi st2) of
               (Some c, Some r) \<Rightarrow>
                 (let buf = buffer_append max_points (counters st2, rssis st2) (c, r)
                  in st2\<lparr>counters := fst buf, rssis := snd buf,
                         current_counter := None, current_rssi := None\<rparr>)
             | _ \<Rightarrow> st2)))"

section \<open>\<open>write_csv\<close> of ble_logs_to_csv.py\<close>

datatype pyval = PInt int | PStr string

definition header :: "string list" where
  "header = [''tx_unix_ms(phone)'', ''rx_unix_ms(esp32)'', ''payload_counter'',
     ''delta_ms'', ''rssi_dbm'', ''tx_device_name'']"

text \<open>The text that the csv writer puts in a cell, before any quoting.\<close>

definition cell :: "pyval \<Rightarrow> string" where
  "cell v = (case v of PInt i \<Rightarrow> str_int i | PStr s \<Rightarrow> s)"

text \<open>\<open>{col: r.get(col, "") for col in header}\<close>, in the order of the field names.\<close>

definition csv_row :: "(string \<rightharpoonup> pyval) \<Rightarrow> string list" where
  "csv_row r = map (\<lambda>col. cell (case r col of None \<Rightarrow> PStr [] | Some v \<Rightarrow> v)) header"

text \<open>
  The lines of cells written to the file, the header line first; \<open>None\<close> when the list
  is empty and no file is written.
\<close>

definition write_csv :: "(string \<rightharpoonup> pyval) list \<Rightarrow> string list list option" where
  "write_csv recs = (case recs of [] \<Rightarrow> None | _ \<Rightarrow> Some (header # map csv_row recs))"

section \<open>The record parser\<close>

subsection \<open>The lines of the first end-to-end scenario\<close>

lemma scenario_strip:
  "py_strip ''=== TARGET BLE DEVICE DETECTED ==='' = ''=== TARGET BLE DEVICE DETECTED ===''"
  "py_strip ''RX Unix ms (ESP32): 1000'' = ''RX Unix ms (ESP32): 1000''"
  "py_strip ''TX counter (payload): 5'' = ''TX counter (payload): 5''"
  "py_strip ''TX Unix ms (payload): 990'' = ''TX Unix ms (payload): 990''"
  "py_strip ''Delta = x: 10 ms'' = ''Delta = x: 10 ms''"
  "py_strip ''RSSI: -60 dBm'' = ''RSSI: -60 dBm''"
  "py_strip [] = []"
  by code_simp+

lemma scenario_no_scan_marker:
  "re_match scan_start_re ''=== TARGET BLE DEVICE DETECTED ==='' = None"
  "re_match scan_start_re ''RX Unix ms (ESP32): 1000'' = None"
  "re_match scan_start_re ''TX counter (payload): 5'' = None"
  "re_match scan_start_re ''TX Unix ms (payload): 990'' = None"
  "re_match scan_start_re ''Delta = x: 10 ms'' = None"
  "re_match scan_start_re ''RSSI: -60 dBm'' = None"
  "re_match scan_start_re [] = None"
  by code_simp+

lemma scenario_block_start:
  "startswith ''=== TARGET BLE DEVICE DETECTED ==='' target_marker"
  "\<not> startswith ''RX Unix ms (ESP32): 1000'' target_marker"
  "\<not> startswith ''TX counter (payload): 5'' target_marker"
  "\<not> startswith ''TX Unix ms (payload): 990'' target_marker"
  "\<not> startswith ''Delta = x: 10 ms'' target_marker"
  "\<not> startswith ''RSSI: -60 dBm'' target_marker"
  "\<not> startswith [] target_marker"
  by code_simp+

lemma scenario_fields:
  "re_match rx_unix_re ''RX Unix ms (ESP32): 1000'' = Some [''1000'']"
  "re_match rx_unix_re ''TX counter (payload): 5'' = None"
  "re_match tx_counter_re ''TX counter (payload): 5'' = Some [''5'']"
  "re_match rx_unix_re ''TX Unix ms (payload): 990'' = None"
  "re_match tx_counter_re ''TX Unix ms (payload): 990'' = None"
  "re_match tx_unix_re ''TX Unix ms (payload): 990'' = Some [''990'']"
  "re_match rx_unix_re ''Delta = x: 10 ms'' = None"
  "re_match tx_counter_re ''Delta = x: 10 ms'' = None"
  "re_match tx_unix_re ''Delta = x: 10 ms'' = None"
  "re_match delta_re ''Delta = x: 10 ms'' = Some [''10'']"
  "re_match rx_unix_re ''RSSI: -60 dBm'' = None"
  "re_match tx_counter_re ''RSSI: -60 dBm'' = None"
  "re_match tx_unix_re ''RSSI: -60 dBm'' = None"
  "re_match delta_re ''RSSI: -60 dBm'' = None"
  "re_match rssi_re ''RSSI: -60 dBm'' = Some [''-60'']"
  "re_match rx_unix_re [] = None"
  "re_match tx_counter_re [] = None"
  "re_match tx_unix_re [] = None"
  "re_match delta_re [] = None"
  "re_match rssi_re [] = None"
  by code_simp+

lemma scenario_ints:
  "int_group1 [''1000''] = Inr 1000"
  "int_group1 [''5''] = Inr 5"
  "int_group1 [''990''] = Inr 990"
  "int_group1 [''10''] = Inr 10"
  "int_group1 [''-60''] = Inr (- 60)"
  by code_simp+

lemmas parse_defs = parse_log_def parse_line_def parse_fields_def set_field_def
  flush_complete_def finalize_def new_packet_def

text \<open>
  C7. The block-start marker, the five field lines of the scenario and a blank line, read
  from any file: \<open>parse_log\<close> returns exactly one record. It holds the file's base name
  and the five parsed values, with \<open>rssi_dbm = -60\<close>; no scan-cycle marker was read, so
  its \<open>scan_cycle\<close> is Python's \<open>None\<close>.
\<close>

theorem parse_log_scenario_one_block:
  "parse_log path
     [''=== TARGET BLE DEVICE DETECTED ==='',
      ''RX Unix ms (ESP32): 1000'',
      ''TX counter (payload): 5'',
      ''TX Unix ms (payload): 990'',
      ''Delta = x: 10 ms'',
      ''RSSI: -60 dBm'',
      []]
   = Inr [\<lparr>file_name = Some (basename path), scan_cycle = None, rx_unix_ms = Some 1000,
           tx_counter = Some 5, tx_unix_ms = Some 990, delta_ms = Some 10,
           rssi_dbm = Some (- 60)\<rparr>]"
  by (simp add: parse_defs scenario_strip scenario_no_scan_marker scenario_block_start
      scenario_fields scenario_ints)

subsection \<open>Only complete records are emitted\<close>

lemma set_field_records:
  "set_field st upd gs = Inr st' \<Longrightarrow> records st' = records st"
  by (auto simp: set_field_def split: sum.splits)

lemma parse_fields_complete:
  assumes "parse_fields path st cur line = Inr st'"
    and "\<forall>r\<in>set (records st). rssi_dbm r \<noteq> None"
  shows "\<forall>r\<in>set (records st'). rssi_dbm r \<noteq> None"
  using assms
  by (auto simp: parse_fields_def finalize_def dest!: set_field_records
      split: option.splits if_splits)

lemma flush_complete_complete:
  assumes "\<forall>r\<in>set (records st). rssi_dbm r \<noteq> None"
  shows "\<forall>r\<in>set (flush_complete path st). rssi_dbm r \<noteq> None"
  using assms by (auto simp: flush_complete_def finalize_def split: option.splits)

lemma parse_line_complete:
  assumes "parse_line path st raw_line = Inr st'"
    and "\<forall>r\<in>set (records st). rssi_dbm r \<noteq> None"
  shows "\<forall>r\<in>set (records st'). rssi_dbm r \<noteq> None"
proof (cases "re_match scan_start_re (py_strip raw_line)")
  case (Some gs)
  with assms show ?thesis
    by (auto simp: parse_line_def split: sum.splits)
next
  case None
  show ?thesis
  proof (cases "startswith (py_strip raw_line) target_marker")
    case True
    with None assms(1) have "records st' = flush_complete path st"
      by (auto simp: parse_line_def)
    with flush_complete_complete[OF assms(2)] show ?thesis by simp
  next
    case False
    with None assms show ?thesis
      by (auto simp: parse_line_def split: option.splits dest: parse_fields_complete)
  qed
qed

lemma parse_lines_complete:
  assumes "parse_lines path st raw_lines = Inr st'"
    and "\<forall>r\<in>set (records st). rssi_dbm r \<noteq> None"
  shows "\<forall>r\<in>set (records st'). rssi_dbm r \<noteq> None"
  using assms
proof (induction raw_lines arbitrary: st)
  case Nil
  then show ?case by simp
next
  case (Cons l ls)
  then obtain st1 where s1: "parse_line path st l = Inr st1"
    and s2: "parse_lines path st1 ls = Inr st'"
    by (auto split: sum.splits)
  from parse_line_complete[OF s1 Cons.prems(2)] Cons.IH[OF s2] show ?case by blast
qed

lemma parse_fields_incomplete_keeps:
  assumes "parse_fields path st cur line = Inr st'" and "rssi_dbm cur = None"
  shows "records st' = records st"
  using assms
  by (auto simp: parse_fields_def dest!: set_field_records split: option.splits if_splits)

lemma parse_line_incomplete_keeps:
  assumes "parse_line path st raw_line = Inr st'"
    and "current st = Some cur" and "rssi_dbm cur = None"
  shows "records st' = records st"
  using assms
  by (auto simp: parse_line_def Let_def flush_complete_def dest: parse_fields_incomplete_keeps
      split: option.splits if_splits sum.splits)

lemma rmatch_lit_prefix:
  "rmatch (lit p @ its) s = Some gs \<Longrightarrow> take (length p) s = p"
proof (induction p arbitrary: s)
  case Nil
  then show ?case by simp
next
  case (Cons c p)
  then show ?case
    by (cases s) (auto simp: lit_def split: if_splits)
qed

lemma take_of_prefix:
  assumes "take (length p) s = p" and "n \<le> length p"
  shows "take n s = take n p"
proof -
  from assms(1) have "take n (take (length p) s) = take n p"
    by simp
  with assms(2) show ?thesis by (simp add: min_def)
qed

text \<open>A line that starts with the block-start marker is not a scan-cycle marker.\<close>

lemma marker_not_scan:
  assumes "startswith line target_marker"
  shows "re_match scan_start_re line = None"
proof (cases "re_match scan_start_re line")
  case None
  then show ?thesis .
next
  case (Some gs)
  then have "rmatch (lit ''=== Scan cycle #'' @ ([Rep Digit 1 True] @ lit '' START'')) line
      = Some gs"
    by (simp add: re_match_def scan_start_re_def)
  from rmatch_lit_prefix[OF this]
  have "take 5 line = take 5 ''=== Scan cycle #''"
    by (rule take_of_prefix) simp
  moreover
  from assms have "take (length target_marker) line = target_marker"
    by (simp add: startswith_def)
  then have "take 5 line = take 5 target_marker"
    by (rule take_of_prefix) (simp add: target_marker_def)
  ultimately have "take 5 ''=== Scan cycle #'' = take 5 target_marker"
    by simp
  then show ?thesis
    by (simp add: target_marker_def)
qed

lemma parse_line_blank_incomplete:
  assumes "py_strip l = []" and "current st = Some cur" and "rssi_dbm cur = None"
  shows "parse_line path st l = Inr st"
  using assms
  by (simp add: parse_line_def parse_fields_def scenario_no_scan_marker scenario_block_start
      scenario_fields)

lemma parse_line_marker_incomplete:
  assumes "startswith (py_strip l) target_marker"
    and "current st = Some cur" and "rssi_dbm cur = None"
  shows "parse_line path st l = Inr (st\<lparr>current := Some (new_packet (cur_scan_cycle st))\<rparr>)"
  using assms by (simp add: parse_line_def marker_not_scan flush_complete_def)

text \<open>
  C1, as the claim states it, fails at a blank line: a blank line read while the open
  record has no \<open>rssi_dbm\<close> changes nothing, the record stays open with the fields it
  has, and it is emitted when an RSSI line comes later. Here the counter 5 was read
  before the blank line and is in the emitted record.
\<close>

theorem parse_log_blank_line_keeps_incomplete:
  "parse_line ''a.log''
     \<lparr>records = [], cur_scan_cycle = None,
        current = Some \<lparr>file_name = None, scan_cycle = None, rx_unix_ms = None,
          tx_counter = Some 5, tx_unix_ms = None, delta_ms = None, rssi_dbm = None\<rparr>\<rparr>
     []
   = Inr \<lparr>records = [], cur_scan_cycle = None,
        current = Some \<lparr>file_name = None, scan_cycle = None, rx_unix_ms = None,
          tx_counter = Some 5, tx_unix_ms = None, delta_ms = None, rssi_dbm = None\<rparr>\<rparr>
   \<and> parse_log ''a.log''
       [''=== TARGET BLE DEVICE DETECTED ==='', ''TX counter (payload): 5'', [],
        ''RSSI: -60 dBm'', []]
     = Inr [\<lparr>file_name = Some ''a.log'', scan_cycle = None, rx_unix_ms = None,
             tx_counter = Some 5, tx_unix_ms = None, delta_ms = None,
             rssi_dbm = Some (- 60)\<rparr>]"
  by code_simp

text \<open>
  C1, amended. Every record of the list that \<open>parse_log\<close> returns holds \<open>rssi_dbm\<close>,
  for every file name and every sequence of lines. An open record without \<open>rssi_dbm\<close>
  is never appended, by no line and not by the flush at the end of input. It is dropped
  at a block-start marker, which puts a fresh record in its place, and at the end of
  input. A blank line does not drop it: the state after the line is the state before
  it. What is not in the returned list reaches no later computation, since those take
  that list only.
\<close>

theorem parse_log_emits_only_complete:
  "(parse_log path raw_lines = Inr recs \<longrightarrow> (\<forall>r\<in>set recs. rssi_dbm r \<noteq> None)) \<and>
   (current st = Some cur \<and> rssi_dbm cur = None \<longrightarrow>
      flush_complete path st = records st
      \<and> (\<forall>st'. parse_line path st l = Inr st' \<longrightarrow> records st' = records st)
      \<and> (startswith (py_strip m) target_marker \<longrightarrow>
           parse_line path st m
             = Inr (st\<lparr>current := Some (new_packet (cur_scan_cycle st))\<rparr>))
      \<and> (py_strip b = [] \<longrightarrow> parse_line path st b = Inr st))"
proof (intro conjI impI)
  assume "parse_log path raw_lines = Inr recs"
  then obtain st1 where
    a: "parse_lines path \<lparr>records = [], cur_scan_cycle = None, current = None\<rparr> raw_lines
          = Inr st1"
    and b: "recs = flush_complete path st1"
    by (auto simp: parse_log_def split: sum.splits)
  from parse_lines_complete[OF a] have "\<forall>r\<in>set (records st1). rssi_dbm r \<noteq> None"
    by simp
  from flush_complete_complete[OF this] b show "\<forall>r\<in>set recs. rssi_dbm r \<noteq> None"
    by simp
next
  assume h: "current st = Some cur \<and> rssi_dbm cur = None"
  then show "flush_complete path st = records st"
    by (simp add: flush_complete_def)
  from h show "\<forall>st'. parse_line path st l = Inr st' \<longrightarrow> records st' = records st"
    using parse_line_incomplete_keeps by blast
next
  assume "current st = Some cur \<and> rssi_dbm cur = None"
    and "startswith (py_strip m) target_marker"
  then show "parse_line path st m
      = Inr (st\<lparr>current := Some (new_packet (cur_scan_cycle st))\<rparr>)"
    using parse_line_marker_incomplete by blast
next
  assume "current st = Some cur \<and> rssi_dbm cur = None" and "py_strip b = []"
  then show "parse_line path st b = Inr st"
    using parse_line_blank_incomplete by blast
qed

text \<open>
  The second scenario of the specification: two block-start markers with no RSSI line
  between them. The first block (a counter only) is dropped, the second is emitted.
\<close>

theorem parse_log_emits_only_complete_witness:
  "parse_log ''a.log''
     [''=== TARGET BLE DEVICE DETECTED ==='', ''TX counter (payload): 5'',
      ''=== TARGET BLE DEVICE DETECTED ==='', ''RSSI: -60 dBm'']
     = Inr [\<lparr>file_name = Some ''a.log'', scan_cycle = None, rx_unix_ms = None,
             tx_counter = None, tx_unix_ms = None, delta_ms = None,
             rssi_dbm = Some (- 60)\<rparr>]
   \<and> list_all (\<lambda>r. rssi_dbm r \<noteq> None)
       [\<lparr>file_name = Some ''a.log'', scan_cycle = None, rx_unix_ms = None,
             tx_counter = None, tx_unix_ms = None, delta_ms = None,
             rssi_dbm = Some (- 60)\<rparr>]
   \<and> current \<lparr>records = [], cur_scan_cycle = None,
               current = Some ((new_packet None)\<lparr>tx_counter := Some 5\<rparr>)\<rparr>
       = Some ((new_packet None)\<lparr>tx_counter := Some 5\<rparr>)
   \<and> rssi_dbm ((new_packet None)\<lparr>tx_counter := Some 5\<rparr>) = None
   \<and> flush_complete ''a.log'' \<lparr>records = [], cur_scan_cycle = None,
               current = Some ((new_packet None)\<lparr>tx_counter := Some 5\<rparr>)\<rparr> = []
   \<and> startswith (py_strip ''=== TARGET BLE DEVICE DETECTED ==='') target_marker
   \<and> parse_line ''a.log'' \<lparr>records = [], cur_scan_cycle = None,
               current = Some ((new_packet None)\<lparr>tx_counter := Some 5\<rparr>)\<rparr>
         ''=== TARGET BLE DEVICE DETECTED ===''
       = Inr \<lparr>records = [], cur_scan_cycle = None, current = Some (new_packet None)\<rparr>
   \<and> py_strip [] = []
   \<and> parse_line ''a.log'' \<lparr>records = [], cur_scan_cycle = None,
               current = Some ((new_packet None)\<lparr>tx_counter := Some 5\<rparr>)\<rparr> []
       = Inr \<lparr>records = [], cur_scan_cycle = None,
               current = Some ((new_packet None)\<lparr>tx_counter := Some 5\<rparr>)\<rparr>"
proof -
  have run: "parse_log ''a.log''
     [''=== TARGET BLE DEVICE DETECTED ==='', ''TX counter (payload): 5'',
      ''=== TARGET BLE DEVICE DETECTED ==='', ''RSSI: -60 dBm'']
     = Inr [\<lparr>file_name = Some ''a.log'', scan_cycle = None, rx_unix_ms = None,
             tx_counter = None, tx_unix_ms = None, delta_ms = None,
             rssi_dbm = Some (- 60)\<rparr>]"
    by code_simp
  have cur: "rssi_dbm ((new_packet None)\<lparr>tx_counter := Some 5\<rparr>) = None"
    by (simp add: new_packet_def)
  have mk: "startswith (py_strip ''=== TARGET BLE DEVICE DETECTED ==='') target_marker"
    by (simp add: scenario_strip scenario_block_start)
  show ?thesis
    using parse_log_emits_only_complete
      [where path = "''a.log''"
         and raw_lines = "[''=== TARGET BLE DEVICE DETECTED ==='', ''TX counter (payload): 5'',
            ''=== TARGET BLE DEVICE DETECTED ==='', ''RSSI: -60 dBm'']"
         and recs = "[\<lparr>file_name = Some ''a.log'', scan_cycle = None, rx_unix_ms = None,
             tx_counter = None, tx_unix_ms = None, delta_ms = None,
             rssi_dbm = Some (- 60)\<rparr>]"
         and st = "\<lparr>records = [], cur_scan_cycle = None,
               current = Some ((new_packet None)\<lparr>tx_counter := Some 5\<rparr>)\<rparr>"
         and cur = "(new_packet None)\<lparr>tx_counter := Some 5\<rparr>"
         and l = "''=== TARGET BLE DEVICE DETECTED ===''"
         and m = "''=== TARGET BLE DEVICE DETECTED ===''"
         and b = "[]"]
      run cur mk
    by (simp add: scenario_strip)
qed

subsection \<open>One field for each line\<close>

lemma rmatch_lit_take4:
  assumes "rmatch (lit p @ its) s = Some gs" and "4 \<le> length p"
  shows "take 4 s = take 4 p"
proof -
  from rmatch_lit_prefix[OF assms(1)] have "take 4 (take (length p) s) = take 4 p"
    by simp
  with assms(2) show ?thesis by (simp add: min_def)
qed

lemma pattern_heads:
  "re_match rx_unix_re s = Some gs \<Longrightarrow> take 4 s = ''RX U''"
  "re_match tx_counter_re s = Some gs \<Longrightarrow> take 4 s = ''TX c''"
  "re_match tx_unix_re s = Some gs \<Longrightarrow> take 4 s = ''TX U''"
  "re_match delta_re s = Some gs \<Longrightarrow> take 4 s = ''Delt''"
  "re_match rssi_re s = Some gs \<Longrightarrow> take 4 s = ''RSSI''"
proof -
  show "re_match rx_unix_re s = Some gs \<Longrightarrow> take 4 s = ''RX U''"
    unfolding re_match_def rx_unix_re_def by (drule rmatch_lit_take4) simp_all
  show "re_match tx_counter_re s = Some gs \<Longrightarrow> take 4 s = ''TX c''"
    unfolding re_match_def tx_counter_re_def by (drule rmatch_lit_take4) simp_all
  show "re_match tx_unix_re s = Some gs \<Longrightarrow> take 4 s = ''TX U''"
    unfolding re_match_def tx_unix_re_def by (drule rmatch_lit_take4) simp_all
  show "re_match delta_re s = Some gs \<Longrightarrow> take 4 s = ''Delt''"
    unfolding re_match_def delta_re_def by (drule rmatch_lit_take4) simp_all
  show "re_match rssi_re s = Some gs \<Longrightarrow> take 4 s = ''RSSI''"
    unfolding re_match_def rssi_re_def by (drule rmatch_lit_take4) simp_all
qed

lemma pattern_heads_or:
  "re_match rx_unix_re s = None \<or> take 4 s = ''RX U''"
  "re_match tx_counter_re s = None \<or> take 4 s = ''TX c''"
  "re_match tx_unix_re s = None \<or> take 4 s = ''TX U''"
  "re_match delta_re s = None \<or> take 4 s = ''Delt''"
  "re_match rssi_re s = None \<or> take 4 s = ''RSSI''"
  by (cases "re_match rx_unix_re s", simp, simp add: pattern_heads)
    (cases "re_match tx_counter_re s", simp, simp add: pattern_heads,
     cases "re_match tx_unix_re s", simp, simp add: pattern_heads,
     cases "re_match delta_re s", simp, simp add: pattern_heads,
     cases "re_match rssi_re s", simp, simp add: pattern_heads)

lemma at_most_one_pattern:
  "length (filter (\<lambda>p. re_match p s \<noteq> None)
     [rx_unix_re, tx_counter_re, tx_unix_re, delta_re, rssi_re]) \<le> 1"
  using pattern_heads_or[of s] by auto

lemma set_field_current:
  "set_field st upd gs = Inr st' \<Longrightarrow> \<exists>v. current st' = Some (upd v)"
  by (auto simp: set_field_def split: sum.splits)

lemma parse_fields_one_field:
  assumes "parse_fields path st cur line = Inr st'" and "current st = Some cur"
  shows "current st' = Some cur \<or> current st' = None
     \<or> (\<exists>v. current st' = Some (cur\<lparr>rx_unix_ms := Some v\<rparr>))
     \<or> (\<exists>v. current st' = Some (cur\<lparr>tx_counter := Some v\<rparr>))
     \<or> (\<exists>v. current st' = Some (cur\<lparr>tx_unix_ms := Some v\<rparr>))
     \<or> (\<exists>v. current st' = Some (cur\<lparr>delta_ms := Some v\<rparr>))
     \<or> (\<exists>v. current st' = Some (cur\<lparr>rssi_dbm := Some v\<rparr>))"
  using assms
  by (auto simp: parse_fields_def dest!: set_field_current split: option.splits if_splits)

lemma parse_line_one_field:
  assumes "parse_line path st raw_line = Inr st'" and "current st = Some cur"
  shows "current st' = Some cur \<or> current st' = None
     \<or> current st' = Some (new_packet (cur_scan_cycle st))
     \<or> (\<exists>v. current st' = Some (cur\<lparr>rx_unix_ms := Some v\<rparr>))
     \<or> (\<exists>v. current st' = Some (cur\<lparr>tx_counter := Some v\<rparr>))
     \<or> (\<exists>v. current st' = Some (cur\<lparr>tx_unix_ms := Some v\<rparr>))
     \<or> (\<exists>v. current st' = Some (cur\<lparr>delta_ms := Some v\<rparr>))
     \<or> (\<exists>v. current st' = Some (cur\<lparr>rssi_dbm := Some v\<rparr>))"
proof (cases "re_match scan_start_re (py_strip raw_line)")
  case (Some gs)
  with assms show ?thesis by (auto simp: parse_line_def split: sum.splits)
next
  case None
  show ?thesis
  proof (cases "startswith (py_strip raw_line) target_marker")
    case True
    with None assms show ?thesis by (auto simp: parse_line_def)
  next
    case False
    with None assms have "parse_fields path st cur (py_strip raw_line) = Inr st'"
      by (auto simp: parse_line_def)
    from parse_fields_one_field[OF this assms(2)] show ?thesis by blast
  qed
qed

lemma reader_step_both:
  assumes "line_bytes \<noteq> []"
    and "re_search COUNTER_RE (py_strip line_bytes) = Some gc" and "int_group1 gc = Inr c"
    and "re_search RSSI_RE (py_strip line_bytes) = Some gr" and "int_group1 gr = Inr r"
  shows "reader_step max_points st line_bytes =
      st\<lparr>counters := fst (buffer_append max_points (counters st, rssis st) (c, r)),
         rssis := snd (buffer_append max_points (counters st, rssis st) (c, r)),
         current_counter := None, current_rssi := None\<rparr>"
  using assms by (simp add: reader_step_def Let_def)

text \<open>
  C8, as the claim states it, fails for the live reader: it searches every line for the
  counter pattern and for the RSSI pattern, one after the other, with no \<open>continue\<close>
  between them. A line that holds both fields sets both variables, and the pair is
  appended in the same turn of the loop.
\<close>

theorem reader_step_line_sets_two_fields:
  "re_search COUNTER_RE (py_strip ''TX counter (payload): 5 RSSI: -60 dBm'') = Some [''5'']
   \<and> re_search RSSI_RE (py_strip ''TX counter (payload): 5 RSSI: -60 dBm'') = Some [''-60'']
   \<and> reader_step 500
        \<lparr>current_counter = None, current_rssi = None, counters = [], rssis = []\<rparr>
        ''TX counter (payload): 5 RSSI: -60 dBm''
      = \<lparr>current_counter = None, current_rssi = None, counters = [5], rssis = [- 60]\<rparr>"
  by code_simp

text \<open>
  C8, amended. In \<open>parse_log\<close> a line writes at most one field into the open record:
  after the line the open record is the one before it, or is closed (blank line), or is
  the fresh record of a block-start marker, or differs from the one before in one
  assigned field; and no line matches more than one of the five field patterns. In
  the live reader a line on which both patterns are found gives both values, which are
  appended as one pair at once.
\<close>

theorem parse_line_writes_one_field:
  "(parse_line path st raw_line = Inr st' \<and> current st = Some cur \<longrightarrow>
      current st' = Some cur \<or> current st' = None
      \<or> current st' = Some (new_packet (cur_scan_cycle st))
      \<or> (\<exists>v. current st' = Some (cur\<lparr>rx_unix_ms := Some v\<rparr>))
      \<or> (\<exists>v. current st' = Some (cur\<lparr>tx_counter := Some v\<rparr>))
      \<or> (\<exists>v. current st' = Some (cur\<lparr>tx_unix_ms := Some v\<rparr>))
      \<or> (\<exists>v. current st' = Some (cur\<lparr>delta_ms := Some v\<rparr>))
      \<or> (\<exists>v. current st' = Some (cur\<lparr>rssi_dbm := Some v\<rparr>)))
   \<and> length (filter (\<lambda>p. re_match p line \<noteq> None)
        [rx_unix_re, tx_counter_re, tx_unix_re, delta_re, rssi_re]) \<le> 1
   \<and> (line_bytes \<noteq> []
        \<and> re_search COUNTER_RE (py_strip line_bytes) = Some gc \<and> int_group1 gc = Inr c
        \<and> re_search RSSI_RE (py_strip line_bytes) = Some gr \<and> int_group1 gr = Inr r \<longrightarrow>
      reader_step max_points lst line_bytes =
        lst\<lparr>counters := fst (buffer_append max_points (counters lst, rssis lst) (c, r)),
            rssis := snd (buffer_append max_points (counters lst, rssis lst) (c, r)),
            current_counter := None, current_rssi := None\<rparr>)"
  using parse_line_one_field[of path st raw_line st' cur] at_most_one_pattern[of line]
    reader_step_both[of line_bytes gc c gr r max_points lst]
  by blast

theorem parse_line_writes_one_field_witness:
  "parse_line ''a.log''
     \<lparr>records = [], cur_scan_cycle = None, current = Some (new_packet None)\<rparr>
     ''RSSI: -60 dBm''
     = Inr \<lparr>records = [], cur_scan_cycle = None,
            current = Some ((new_packet None)\<lparr>rssi_dbm := Some (- 60)\<rparr>)\<rparr>
   \<and> length (filter (\<lambda>p. re_match p ''RSSI: -60 dBm'' \<noteq> None)
        [rx_unix_re, tx_counter_re, tx_unix_re, delta_re, rssi_re]) \<le> 1
   \<and> re_search COUNTER_RE (py_strip ''TX counter (payload): 5 RSSI: -60 dBm'') = Some [''5'']
   \<and> int_group1 [''5''] = Inr 5
   \<and> re_search RSSI_RE (py_strip ''TX counter (payload): 5 RSSI: -60 dBm'') = Some [''-60'']
   \<and> int_group1 [''-60''] = Inr (- 60)
   \<and> reader_step 3
        \<lparr>current_counter = None, current_rssi = None, counters = [1, 2, 3],
           rssis = [- 50, - 55, - 58]\<rparr>
        ''TX counter (payload): 5 RSSI: -60 dBm''
      = \<lparr>current_counter = None, current_rssi = None, counters = [2, 3, 5],
           rssis = [- 55, - 58, - 60]\<rparr>"
proof -
  have a: "parse_line ''a.log''
     \<lparr>records = [], cur_scan_cycle = None, current = Some (new_packet None)\<rparr>
     ''RSSI: -60 dBm''
     = Inr \<lparr>records = [], cur_scan_cycle = None,
            current = Some ((new_packet None)\<lparr>rssi_dbm := Some (- 60)\<rparr>)\<rparr>"
    by code_simp
  have b: "re_search COUNTER_RE (py_strip ''TX counter (payload): 5 RSSI: -60 dBm'')
      = Some [''5'']"
    by code_simp
  have c: "re_search RSSI_RE (py_strip ''TX counter (payload): 5 RSSI: -60 dBm'')
      = Some [''-60'']"
    by code_simp
  have d: "buffer_append 3 ([1, 2, 3], [- 50, - 55, - 58]) (5, - 60)
      = ([2, 3, 5], [- 55, - 58, - 60])"
    by (simp add: buffer_append_def)
  have e: "''TX counter (payload): 5 RSSI: -60 dBm'' \<noteq> []"
    by simp
  show ?thesis
    using parse_line_writes_one_field
      [of "''a.log''"
          "\<lparr>records = [], cur_scan_cycle = None, current = Some (new_packet None)\<rparr>"
          "''RSSI: -60 dBm''"
          "\<lparr>records = [], cur_scan_cycle = None,
            current = Some ((new_packet None)\<lparr>rssi_dbm := Some (- 60)\<rparr>)\<rparr>"
          "new_packet None"
          "''RSSI: -60 dBm''"
          "''TX counter (payload): 5 RSSI: -60 dBm''"
          "[''5'']" 5 "[''-60'']" "- 60" 3
          "\<lparr>current_counter = None, current_rssi = None, counters = [1, 2, 3],
           rssis = [- 50, - 55, - 58]\<rparr>"]
      a b c d e scenario_ints(2,5)
    by simp
qed

section \<open>The live buffer\<close>

lemma buffer_append_contents:
  "foldl (buffer_append max_points) ([], []) ps =
     (map fst (drop (length ps - nat max_points) ps),
      map snd (drop (length ps - nat max_points) ps))"
proof (induction ps rule: rev_induct)
  case Nil
  then show ?case by simp
next
  case (snoc p ps)
  let ?k = "length ps - nat max_points"
  show ?case
  proof (cases "int (length ps - ?k) + 1 > max_points")
    case full: True
    then have ge: "nat max_points \<le> length ps" by linarith
    show ?thesis
    proof (cases "?k < length ps")
      case True
      then have ne: "drop ?k ps \<noteq> []" by simp
      have k1: "length (ps @ [p]) - nat max_points = Suc ?k" using ge by simp
      have "tl (map fst (drop ?k ps) @ [fst p]) = map fst (drop (Suc ?k) ps) @ [fst p]"
        using ne by (simp, metis drop_Suc tl_drop map_tl)
      moreover
      have "tl (map snd (drop ?k ps) @ [snd p]) = map snd (drop (Suc ?k) ps) @ [snd p]"
        using ne by (simp, metis drop_Suc tl_drop map_tl)
      ultimately show ?thesis
        using snoc full True k1 by (simp add: buffer_append_def Let_def)
    next
      case False
      then have "nat max_points = 0" using ge by linarith
      then show ?thesis
        using snoc full by (simp add: buffer_append_def Let_def)
    qed
  next
    case False
    then have "length ps < nat max_points" by linarith
    then show ?thesis
      using snoc False by (simp add: buffer_append_def Let_def)
  qed
qed

lemma buffer_append_bound:
  assumes "0 \<le> max_points"
  shows "int (length (fst (foldl (buffer_append max_points) ([], []) ps))) \<le> max_points"
  using assms by (simp add: buffer_append_contents)

lemma buffer_append_evicts_oldest:
  assumes "int (length cs) + 2 > max_points"
  shows "buffer_append max_points (c_old # cs, r_old # rs) (c, r) = (cs @ [c], rs @ [r])"
  using assms by (simp add: buffer_append_def Let_def)

lemma buffer_append_step_bound:
  assumes "int (length (fst buf)) \<le> max_points" and "length (snd buf) = length (fst buf)"
  shows "int (length (fst (buffer_append max_points buf p))) \<le> max_points
       \<and> length (snd (buffer_append max_points buf p))
           = length (fst (buffer_append max_points buf p))"
  using assms by (auto simp: buffer_append_def Let_def)

lemma reader_step_bound:
  assumes "int (length (counters st)) \<le> max_points"
    and "length (rssis st) = length (counters st)"
  shows "int (length (counters (reader_step max_points st l))) \<le> max_points
       \<and> length (rssis (reader_step max_points st l))
           = length (counters (reader_step max_points st l))"
  using assms buffer_append_step_bound[of "(counters st, rssis st)" max_points]
  by (auto simp: reader_step_def Let_def split: option.splits sum.splits)

text \<open>
  C4. \<open>max_points\<close> is the \<open>int\<close> of the command line, taken non-negative as the cap of
  a buffer is. After the pairs \<open>ps\<close> were appended to the empty buffer, in this order,
  the deque of counters is not longer than \<open>max_points\<close>, the deque of RSSI values has
  the same length, and the two hold, index by index, the last \<open>max_points\<close> pairs of
  \<open>ps\<close> in their order: what was evicted is the oldest. An eviction removes the head
  of both deques together, and a turn of the reader's loop keeps the bound. With
  \<open>max_points = 3\<close> the four pairs of the scenario leave \<open>(2,-55), (3,-60), (4,-65)\<close>.
\<close>

theorem buffer_append_bounded_fifo:
  "(0 \<le> max_points \<longrightarrow>
      int (length (fst (foldl (buffer_append max_points) ([], []) ps))) \<le> max_points)
   \<and> length (snd (foldl (buffer_append max_points) ([], []) ps))
       = length (fst (foldl (buffer_append max_points) ([], []) ps))
   \<and> zip (fst (foldl (buffer_append max_points) ([], []) ps))
          (snd (foldl (buffer_append max_points) ([], []) ps))
       = drop (length ps - nat max_points) ps
   \<and> (int (length cs) + 2 > max_points \<longrightarrow>
        buffer_append max_points (c_old # cs, r_old # rs) (c, r) = (cs @ [c], rs @ [r]))
   \<and> (int (length (counters st)) \<le> max_points \<and> length (rssis st) = length (counters st) \<longrightarrow>
        int (length (counters (reader_step max_points st l))) \<le> max_points
        \<and> length (rssis (reader_step max_points st l))
            = length (counters (reader_step max_points st l)))
   \<and> foldl (buffer_append 3) ([], []) [(1, - 50), (2, - 55), (3, - 60), (4, - 65)]
       = ([2, 3, 4], [- 55, - 60, - 65])"
proof (intro conjI impI)
  assume "0 \<le> max_points"
  then show "int (length (fst (foldl (buffer_append max_points) ([], []) ps))) \<le> max_points"
    by (rule buffer_append_bound)
next
  show "length (snd (foldl (buffer_append max_points) ([], []) ps))
       = length (fst (foldl (buffer_append max_points) ([], []) ps))"
    by (simp add: buffer_append_contents)
next
  show "zip (fst (foldl (buffer_append max_points) ([], []) ps))
          (snd (foldl (buffer_append max_points) ([], []) ps))
       = drop (length ps - nat max_points) ps"
    by (simp add: buffer_append_contents zip_map_fst_snd)
next
  assume "int (length cs) + 2 > max_points"
  then show "buffer_append max_points (c_old # cs, r_old # rs) (c, r) = (cs @ [c], rs @ [r])"
    by (rule buffer_append_evicts_oldest)
next
  assume h: "int (length (counters st)) \<le> max_points
      \<and> length (rssis st) = length (counters st)"
  with reader_step_bound[of st max_points l]
  show "int (length (counters (reader_step max_points st l))) \<le> max_points"
    by simp
  from h reader_step_bound[of st max_points l]
  show "length (rssis (reader_step max_points st l))
            = length (counters (reader_step max_points st l))"
    by simp
next
  show "foldl (buffer_append 3) ([], []) [(1, - 50), (2, - 55), (3, - 60), (4, - 65)]
       = ([2, 3, 4], [- 55, - 60, - 65])"
    by (simp add: buffer_append_def)
qed

theorem buffer_append_bounded_fifo_witness:
  "(0::int) \<le> 3
   \<and> int (length (fst (foldl (buffer_append 3) ([], [])
        [(1, - 50), (2, - 55), (3, - 60), (4, - 65)]))) \<le> 3
   \<and> zip (fst (foldl (buffer_append 3) ([], []) [(1, - 50), (2, - 55), (3, - 60), (4, - 65)]))
          (snd (foldl (buffer_append 3) ([], []) [(1, - 50), (2, - 55), (3, - 60), (4, - 65)]))
       = [(2, - 55), (3, - 60), (4, - 65)]
   \<and> int (length [2 :: int, 3]) + 2 > 3
   \<and> buffer_append 3 ([1, 2, 3], [- 50, - 55, - 60]) (4, - 65) = ([2, 3, 4], [- 55, - 60, - 65])
   \<and> int (length (counters
        \<lparr>current_counter = None, current_rssi = None, counters = [1, 2, 3],
           rssis = [- 50, - 55, - 60]\<rparr>)) \<le> 3
   \<and> int (length (counters (reader_step 3
        \<lparr>current_counter = None, current_rssi = None, counters = [1, 2, 3],
           rssis = [- 50, - 55, - 60]\<rparr>
        ''TX counter (payload): 4 RSSI: -65 dBm''))) \<le> 3"
  using buffer_append_bounded_fifo
    [where max_points = 3 and ps = "[(1, - 50), (2, - 55), (3, - 60), (4, - 65)]"
       and cs = "[2, 3]" and c_old = 1 and rs = "[- 55, - 60]" and r_old = "- 50"
       and c = 4 and r = "- 65"
       and st = "\<lparr>current_counter = None, current_rssi = None, counters = [1, 2, 3],
           rssis = [- 50, - 55, - 60]\<rparr>"
       and l = "''TX counter (payload): 4 RSSI: -65 dBm''"]
  by simp

section \<open>The combined index view\<close>

lemma combined_series_step:
  "combined_series e off ((l, n, x, y) # rest) =
     (l @ '' ('' @ str_int n @ ''/'' @ str_int e @ '')'',
      map (\<lambda>i. off + int i) [0 ..< length x], y)
       # combined_series e (if x = [] then off else off + int (length x) + 4) rest"
  by (cases x rule: rev_cases) (auto simp: Let_def algebra_simps)

lemma combined_two:
  assumes "x_a \<noteq> []"
  shows "plot_combined_rssi_vs_counter [(la, na, x_a, y_a), (lb, nb, x_b, y_b)] e =
    Some [(la @ '' ('' @ str_int na @ ''/'' @ str_int e @ '')'',
             map int [0 ..< length x_a], y_a),
          (lb @ '' ('' @ str_int nb @ ''/'' @ str_int e @ '')'',
             map (\<lambda>i. int (length x_a) + 4 + int i) [0 ..< length x_b], y_b)]"
  using assms
  by (simp add: plot_combined_rssi_vs_counter_def combined_series_step
      del: combined_series.simps(2))

text \<open>
  C5, as the claim states it, fails: after a session of 3 points at the indices 0, 1, 2
  the next offset is \<open>xs[-1] + 5 = 7\<close>, and the 2 points of the second session are
  drawn at 7 and 8, not at 8 and 9.
\<close>

theorem plot_combined_second_session_at_7:
  "plot_combined_rssi_vs_counter
     [(''A'', 3, [10, 11, 12], [- 50, - 51, - 52]), (''B'', 2, [20, 21], [- 60, - 61])] 200
   = Some [(''A (3/200)'', [0, 1, 2], [- 50, - 51, - 52]),
           (''B (2/200)'', [7, 8], [- 60, - 61])]"
  by code_simp

text \<open>
  C5, amended. The sessions are laid one after the other on the virtual index axis; the
  first index of a session is the last index of the session before it plus 5 (a session
  with no point leaves the offset as it is). A session A with \<open>m > 0\<close> points takes the
  indices \<open>0 .. m-1\<close> and the session B after it the indices from \<open>m + 4\<close> on: for 3
  and 2 points, \<open>{0,1,2}\<close> and \<open>{7,8}\<close>.
\<close>

theorem plot_combined_gap:
  "combined_series e off ((l, n, x, y) # rest) =
     (l @ '' ('' @ str_int n @ ''/'' @ str_int e @ '')'',
      map (\<lambda>i. off + int i) [0 ..< length x], y)
       # combined_series e (if x = [] then off else (off + int (length x) - 1) + 5) rest
   \<and> (x_a \<noteq> [] \<longrightarrow>
       plot_combined_rssi_vs_counter [(la, na, x_a, y_a), (lb, nb, x_b, y_b)] e =
         Some [(la @ '' ('' @ str_int na @ ''/'' @ str_int e @ '')'',
                  map int [0 ..< length x_a], y_a),
               (lb @ '' ('' @ str_int nb @ ''/'' @ str_int e @ '')'',
                  map (\<lambda>i. int (length x_a) + 4 + int i) [0 ..< length x_b], y_b)])
   \<and> (length x_a = 3 \<and> length x_b = 2 \<longrightarrow>
       map (fst \<circ> snd)
         (the (plot_combined_rssi_vs_counter [(la, na, x_a, y_a), (lb, nb, x_b, y_b)] e))
       = [[0, 1, 2], [7, 8]])"
proof (intro conjI impI)
  show "combined_series e off ((l, n, x, y) # rest) =
     (l @ '' ('' @ str_int n @ ''/'' @ str_int e @ '')'',
      map (\<lambda>i. off + int i) [0 ..< length x], y)
       # combined_series e (if x = [] then off else (off + int (length x) - 1) + 5) rest"
  proof -
    have eq: "(off + int (length x) - 1) + 5 = off + int (length x) + 4"
      by simp
    show ?thesis
      unfolding eq by (rule combined_series_step)
  qed
next
  assume "x_a \<noteq> []"
  then show "plot_combined_rssi_vs_counter [(la, na, x_a, y_a), (lb, nb, x_b, y_b)] e =
         Some [(la @ '' ('' @ str_int na @ ''/'' @ str_int e @ '')'',
                  map int [0 ..< length x_a], y_a),
               (lb @ '' ('' @ str_int nb @ ''/'' @ str_int e @ '')'',
                  map (\<lambda>i. int (length x_a) + 4 + int i) [0 ..< length x_b], y_b)]"
    by (rule combined_two)
next
  assume h: "length x_a = 3 \<and> length x_b = 2"
  then have ne: "x_a \<noteq> []" by auto
  have "[0 ..< 3] = [0, 1, 2]" "[0 ..< 2] = [0, 1 :: nat]"
    by (simp_all add: upt_rec)
  with h show "map (fst \<circ> snd)
         (the (plot_combined_rssi_vs_counter [(la, na, x_a, y_a), (lb, nb, x_b, y_b)] e))
       = [[0, 1, 2], [7, 8]]"
    by (simp add: combined_two[OF ne])
qed

theorem plot_combined_gap_witness:
  "[10, 11, 12 :: int] \<noteq> []
   \<and> length [10, 11, 12 :: int] = 3 \<and> length [20, 21 :: int] = 2
   \<and> map (fst \<circ> snd)
       (the (plot_combined_rssi_vs_counter
          [(''A'', 3, [10, 11, 12], [- 50, - 51, - 52]),
           (''B'', 2, [20, 21], [- 60, - 61])] 200))
     = [[0, 1, 2], [7, 8]]"
  using plot_combined_gap
    [where e = 200 and off = 0 and l = "''A''" and n = 3 and x = "[10, 11, 12]"
       and y = "[- 50, - 51, - 52]" and rest = "[]"
       and x_a = "[10, 11, 12]" and la = "''A''" and na = 3 and y_a = "[- 50, - 51, - 52]"
       and lb = "''B''" and nb = 2 and x_b = "[20, 21]" and y_b = "[- 60, - 61]"]
  by simp

section \<open>The CSV export\<close>

lemma csv_row_cells:
  "length (csv_row r) = 6 \<and>
   (\<forall>j<6. csv_row r ! j = (case r (header ! j) of None \<Rightarrow> [] | Some v \<Rightarrow> cell v))"
  by (auto simp: csv_row_def header_def cell_def nth_Cons' split: option.splits)

lemma write_csv_rows:
  assumes "recs \<noteq> []"
  shows "\<exists>rows. write_csv recs = Some (header # rows) \<and> length rows = length recs \<and>
     (\<forall>i<length recs. rows ! i = csv_row (recs ! i))"
proof -
  have "write_csv recs = Some (header # map csv_row recs)"
    using assms by (cases recs) (simp_all add: write_csv_def)
  then show ?thesis
    by (intro exI[of _ "map csv_row recs"]) simp
qed

text \<open>
  C9. For a list of records that is not empty \<open>write_csv\<close> writes the header line and
  then one line for each record, in the order of the list. The header is the six column
  names in the fixed order; a line has six cells, the cell of a column is the text of the
  record's value under that key, and the empty string when the record has no such key.
  For the empty list nothing is written, no file and no line.
\<close>

theorem write_csv_one_row_per_record:
  "(recs \<noteq> [] \<longrightarrow>
      (\<exists>rows. write_csv recs = Some (header # rows) \<and> length rows = length recs \<and>
         (\<forall>i<length recs. rows ! i = csv_row (recs ! i))))
   \<and> write_csv [] = None
   \<and> header = [''tx_unix_ms(phone)'', ''rx_unix_ms(esp32)'', ''payload_counter'',
        ''delta_ms'', ''rssi_dbm'', ''tx_device_name'']
   \<and> length (csv_row r) = 6
   \<and> (\<forall>j<6. csv_row r ! j = (case r (header ! j) of None \<Rightarrow> [] | Some v \<Rightarrow> cell v))"
  using write_csv_rows[of recs] csv_row_cells[of r]
  by (simp add: write_csv_def header_def)

theorem write_csv_one_row_per_record_witness:
  "[[''rssi_dbm'' \<mapsto> PInt (- 60), ''tx_device_name'' \<mapsto> PStr ''A72Aziz'']] \<noteq> []
   \<and> (\<exists>rows. write_csv [[''rssi_dbm'' \<mapsto> PInt (- 60), ''tx_device_name'' \<mapsto> PStr ''A72Aziz'']]
          = Some (header # rows)
        \<and> length rows = 1
        \<and> rows ! 0 = [[], [], [], [], ''-60'', ''A72Aziz''])"
proof -
  have row: "csv_row [''rssi_dbm'' \<mapsto> PInt (- 60), ''tx_device_name'' \<mapsto> PStr ''A72Aziz'']
      = [[], [], [], [], ''-60'', ''A72Aziz'']"
    by code_simp
  show ?thesis
    using write_csv_one_row_per_record
      [where recs = "[[''rssi_dbm'' \<mapsto> PInt (- 60), ''tx_device_name'' \<mapsto> PStr ''A72Aziz'']]"]
      row
    by simp
qed

section \<open>The session summary\<close>

lemma records_sorted_props:
  "sorted (map tx_key (records_sorted recs))"
  "mset (records_sorted recs) = mset recs"
  "set (records_sorted recs) = set recs"
  "length (records_sorted recs) = length recs"
  "filter (\<lambda>r. tx_key r = k) (records_sorted recs) = filter (\<lambda>r. tx_key r = k) recs"
  by (simp_all add: records_sorted_def sort_key_stable)

lemma present_filter:
  "present f rs = map (\<lambda>r. the (f r)) (filter (\<lambda>r. f r \<noteq> None) rs)"
  by (simp add: present_def map_filter_def comp_def)

lemma present_empty_iff: "present f rs = [] \<longleftrightarrow> (\<forall>r\<in>set rs. f r = None)"
  by (auto simp: present_filter filter_empty_conv)

lemma hd_filter_sat: "filter P xs \<noteq> [] \<Longrightarrow> P (hd (filter P xs))"
  by (induction xs) auto

lemma last_filter_sat: "filter P xs \<noteq> [] \<Longrightarrow> P (last (filter P xs))"
  by (induction xs) auto

lemma present_hd:
  assumes "present f rs \<noteq> []"
  shows "f (hd (filter (\<lambda>r. f r \<noteq> None) rs)) = Some (hd (present f rs))"
proof -
  let ?F = "filter (\<lambda>r. f r \<noteq> None) rs"
  from assms have ne: "?F \<noteq> []" by (simp add: present_filter)
  then have "f (hd ?F) \<noteq> None" by (rule hd_filter_sat)
  moreover have "hd (present f rs) = the (f (hd ?F))"
    using ne by (simp add: present_filter hd_map)
  ultimately show ?thesis by auto
qed

lemma present_last:
  assumes "present f rs \<noteq> []"
  shows "f (last (filter (\<lambda>r. f r \<noteq> None) rs)) = Some (last (present f rs))"
proof -
  let ?F = "filter (\<lambda>r. f r \<noteq> None) rs"
  from assms have ne: "?F \<noteq> []" by (simp add: present_filter)
  then have "f (last ?F) \<noteq> None" by (rule last_filter_sat)
  moreover have "last (present f rs) = the (f (last ?F))"
    using ne by (simp add: present_filter last_map)
  ultimately show ?thesis by auto
qed

text \<open>When some record holds a counter the body returns, and this is what it returns.\<close>

lemma summary_body_returns:
  assumes "\<exists>r\<in>set recs. tx_counter r \<noteq> None"
  shows "summary_body recs e =
     Inr \<lparr>n_packets = int (length recs),
          mean_rssi = mean (present rssi_dbm (records_sorted recs)),
          loss_count = loss_count_of e (int (length recs)),
          loss_pct = loss_pct_of e (loss_count_of e (int (length recs))),
          printed = Some \<lparr>first_counter = hd (present tx_counter (records_sorted recs)),
             last_counter = last (present tx_counter (records_sorted recs)),
             duration_s = duration_of (tx_unix_ms (hd (records_sorted recs)))
                             (tx_unix_ms (last (records_sorted recs))),
             min_rssi = min_opt (present rssi_dbm (records_sorted recs)),
             max_rssi = max_opt (present rssi_dbm (records_sorted recs)),
             mean_delta = mean (present delta_ms (records_sorted recs)),
             min_delta = min_opt (present delta_ms (records_sorted recs)),
             max_delta = max_opt (present delta_ms (records_sorted recs))\<rparr>\<rparr>"
proof -
  from assms have "present tx_counter (records_sorted recs) \<noteq> []"
    by (simp add: present_empty_iff records_sorted_props)
  then obtain c cs where "present tx_counter (records_sorted recs) = c # cs"
    by (cases "present tx_counter (records_sorted recs)") auto
  then show ?thesis
    by (simp add: summary_body_def Let_def index_first_def index_last_def
        records_sorted_props)
qed

text \<open>When no record holds a counter, \<open>counters[0]\<close> raises.\<close>

lemma summary_body_raises:
  assumes "\<forall>r\<in>set recs. tx_counter r = None"
  shows "summary_body recs e = Inl IndexError"
proof -
  from assms have "present tx_counter (records_sorted recs) = []"
    by (simp add: present_empty_iff records_sorted_props)
  then show ?thesis
    by (simp add: summary_body_def Let_def index_first_def)
qed

lemma has_counter_nonempty: "\<exists>r\<in>set recs. tx_counter r \<noteq> None \<Longrightarrow> recs \<noteq> []"
  by auto

lemma duration_of_nan:
  "f = None \<or> f = Some 0 \<or> l = None \<or> l = Some 0 \<Longrightarrow> duration_of f l = NaN"
  by (auto simp: duration_of_def split: option.splits)

subsection \<open>The loss estimate\<close>

text \<open>
  The loss percentage is the double that the two float operations give. For 150 of 200
  packets it is 25; for 142 of 200 the quotient 58/200 is rounded before the product, and
  the result is 28.999999999999996, the double below 29.
\<close>

lemma loss_pct_of_200_50: "loss_pct_of 200 50 = Fin 25"
  by code_simp

lemma loss_pct_of_200_58: "loss_pct_of 200 58 = Fin (8162774324609023 / 281474976710656)"
  by code_simp

text \<open>
  C2, as the claim states it, fails at the record count 0 with the expected count 0: the
  branch for an empty list returns the constant \<open>100.0\<close> as the loss percentage, not
  NaN.
\<close>

theorem summarize_records_empty_expected_0:
  "summarize_records [] 0 =
     Inr \<lparr>n_packets = 0, mean_rssi = NaN, loss_count = 0, loss_pct = Fin 100,
          printed = None\<rparr>"
  by (simp add: summarize_records_def)

text \<open>
  C2, amended. For a list of \<open>n \<ge> 1\<close> records and every expected count \<open>e\<close>, every
  summary that is returned has \<open>loss_count = max (e - n) 0\<close>, and \<open>loss_pct\<close> is the
  double result of \<open>loss_count / e * 100.0\<close> (the quotient rounded to a double, then
  the product rounded) when \<open>e > 0\<close>, NaN otherwise, with no exception; in
  analyze_ble_logs.py the same with \<open>e = 200\<close>. For \<open>e = 200\<close> and \<open>n = 150\<close>
  the values are 50 and 25. A summary is returned when some record holds a counter; this
  is stated for an expected count and for field values below \<open>2 ^ 1000\<close> in magnitude,
  far inside the range of a double.
  For the empty list the result is \<open>loss_count = e\<close> and \<open>loss_pct = 100\<close>, whatever
  \<open>e\<close> is.
\<close>

theorem summarize_records_loss:
  "(recs \<noteq> [] \<longrightarrow>
      (\<forall>s. summarize_records recs e = Inr s \<longrightarrow>
         loss_count s = max (e - int (length recs)) 0
         \<and> loss_pct s =
             (if e > 0
              then Fin (round_double (round_double (of_int (loss_count s) / of_int e) * 100))
              else NaN))
      \<and> (\<forall>s. summarize_records_single recs = Inr (Some s) \<longrightarrow>
         loss_count s = max (200 - int (length recs)) 0
         \<and> loss_pct s = Fin (round_double (round_double (of_int (loss_count s) / 200) * 100)))
      \<and> (length recs = 150 \<longrightarrow>
           (\<forall>s. summarize_records recs 200 = Inr s \<longrightarrow>
              loss_count s = 50 \<and> loss_pct s = Fin 25)))
   \<and> ((\<exists>r\<in>set recs. tx_counter r \<noteq> None) \<and> \<bar>e\<bar> < 2 ^ 1000
        \<and> (\<forall>r\<in>set recs. \<forall>v. tx_counter r = Some v \<or> tx_unix_ms r = Some v
               \<or> delta_ms r = Some v \<or> rssi_dbm r = Some v \<longrightarrow> \<bar>v\<bar> < 2 ^ 1000) \<longrightarrow>
        (\<exists>s. summarize_records recs e = Inr s)
        \<and> (\<exists>s. summarize_records_single recs = Inr (Some s)))
   \<and> (\<exists>s. summarize_records [] e = Inr s \<and> loss_count s = e \<and> loss_pct s = Fin 100)"
proof (intro conjI impI allI)
  fix s
  assume ne: "recs \<noteq> []" and r: "summarize_records recs e = Inr s"
  have h: "\<exists>r\<in>set recs. tx_counter r \<noteq> None"
  proof (rule ccontr)
    assume "\<not> (\<exists>r\<in>set recs. tx_counter r \<noteq> None)"
    then have "\<forall>r\<in>set recs. tx_counter r = None" by simp
    from summary_body_raises[OF this] ne r show False
      by (simp add: summarize_records_def)
  qed
  from ne r show "loss_count s = max (e - int (length recs)) 0"
    by (auto simp: summarize_records_def summary_body_returns[OF h] loss_count_of_def)
  from ne r show "loss_pct s =
      (if e > 0
       then Fin (round_double (round_double (of_int (loss_count s) / of_int e) * 100))
       else NaN)"
    by (auto simp: summarize_records_def summary_body_returns[OF h] loss_pct_of_def)
next
  fix s
  assume ne: "recs \<noteq> []" and r: "summarize_records_single recs = Inr (Some s)"
  have h: "\<exists>r\<in>set recs. tx_counter r \<noteq> None"
  proof (rule ccontr)
    assume "\<not> (\<exists>r\<in>set recs. tx_counter r \<noteq> None)"
    then have "\<forall>r\<in>set recs. tx_counter r = None" by simp
    from summary_body_raises[OF this] ne r show False
      by (simp add: summarize_records_single_def)
  qed
  from ne r show "loss_count s = max (200 - int (length recs)) 0"
    by (auto simp: summarize_records_single_def summary_body_returns[OF h] loss_count_of_def)
  from ne r show "loss_pct s
      = Fin (round_double (round_double (of_int (loss_count s) / 200) * 100))"
    by (auto simp: summarize_records_single_def summary_body_returns[OF h] loss_pct_of_def)
next
  fix s
  assume ne: "recs \<noteq> []" and n: "length recs = 150"
    and r: "summarize_records recs 200 = Inr s"
  have h: "\<exists>r\<in>set recs. tx_counter r \<noteq> None"
  proof (rule ccontr)
    assume "\<not> (\<exists>r\<in>set recs. tx_counter r \<noteq> None)"
    then have "\<forall>r\<in>set recs. tx_counter r = None" by simp
    from summary_body_raises[OF this] ne r show False
      by (simp add: summarize_records_def)
  qed
  have lc: "loss_count_of 200 150 = 50"
    by (simp add: loss_count_of_def)
  from ne r n show "loss_count s = 50"
    by (auto simp: summarize_records_def summary_body_returns[OF h] lc)
  from ne r n show "loss_pct s = Fin 25"
    by (auto simp: summarize_records_def summary_body_returns[OF h] lc loss_pct_of_200_50)
next
  assume "(\<exists>r\<in>set recs. tx_counter r \<noteq> None) \<and> \<bar>e\<bar> < 2 ^ 1000
        \<and> (\<forall>r\<in>set recs. \<forall>v. tx_counter r = Some v \<or> tx_unix_ms r = Some v
               \<or> delta_ms r = Some v \<or> rssi_dbm r = Some v \<longrightarrow> \<bar>v\<bar> < 2 ^ 1000)"
  then have h: "\<exists>r\<in>set recs. tx_counter r \<noteq> None" by blast
  from has_counter_nonempty[OF h] show "\<exists>s. summarize_records recs e = Inr s"
    by (simp add: summarize_records_def summary_body_returns[OF h])
  from has_counter_nonempty[OF h] show "\<exists>s. summarize_records_single recs = Inr (Some s)"
    by (simp add: summarize_records_single_def summary_body_returns[OF h])
next
  show "\<exists>s. summarize_records [] e = Inr s \<and> loss_count s = e \<and> loss_pct s = Fin 100"
    by (simp add: summarize_records_def)
qed

theorem summarize_records_loss_witness:
  "replicate 150
      \<lparr>file_name = None, scan_cycle = None, rx_unix_ms = None, tx_counter = Some 1,
         tx_unix_ms = None, delta_ms = None, rssi_dbm = Some (- 60)\<rparr> \<noteq> []
   \<and> length (replicate 150
      \<lparr>file_name = None, scan_cycle = None, rx_unix_ms = None, tx_counter = Some 1,
         tx_unix_ms = None, delta_ms = None, rssi_dbm = Some (- 60)\<rparr>) = 150
   \<and> (\<exists>s. summarize_records
          (replicate 150
            \<lparr>file_name = None, scan_cycle = None, rx_unix_ms = None, tx_counter = Some 1,
               tx_unix_ms = None, delta_ms = None, rssi_dbm = Some (- 60)\<rparr>)
          200 = Inr s
        \<and> loss_count s = 50 \<and> loss_pct s = Fin 25)"
proof -
  let ?recs = "replicate 150
      \<lparr>file_name = None, scan_cycle = None, rx_unix_ms = None, tx_counter = Some 1,
         tx_unix_ms = None, delta_ms = None, rssi_dbm = Some (- 60)\<rparr>"
  note t = summarize_records_loss[where recs = ?recs and e = 200]
  have ne: "?recs \<noteq> []" and n: "length ?recs = 150"
    by simp_all
  have c: "\<exists>r\<in>set ?recs. tx_counter r \<noteq> None"
    by simp
  have e: "\<bar>200 :: int\<bar> < 2 ^ 1000"
  proof -
    have "(200 :: int) < 2 ^ 8" by simp
    also have "(2 :: int) ^ 8 \<le> 2 ^ 1000" by (rule power_increasing) simp_all
    finally show ?thesis by simp
  qed
  have small: "\<forall>r\<in>set ?recs. \<forall>v. tx_counter r = Some v \<or> tx_unix_ms r = Some v
               \<or> delta_ms r = Some v \<or> rssi_dbm r = Some v \<longrightarrow> \<bar>v\<bar> < 2 ^ 1000"
    using e by auto
  from t c e small obtain s where s: "summarize_records ?recs 200 = Inr s"
    by blast
  from t ne n s have "loss_count s = 50 \<and> loss_pct s = Fin 25"
    by blast
  with s ne n show ?thesis by blast
qed

subsection \<open>The order of the records\<close>

text \<open>
  C3, as the claim states it, fails when the record at the smallest \<open>tx_unix_ms\<close> holds
  no counter: the first counter reported is then the counter of a later record. Here it
  is 7, the counter of the record at the largest \<open>tx_unix_ms\<close>.
\<close>

theorem summarize_records_first_counter_of_later_record:
  "summarize_records
     [\<lparr>file_name = Some ''a.log'', scan_cycle = None, rx_unix_ms = None, tx_counter = None,
        tx_unix_ms = Some 1000, delta_ms = None, rssi_dbm = Some (- 50)\<rparr>,
      \<lparr>file_name = Some ''a.log'', scan_cycle = None, rx_unix_ms = None, tx_counter = Some 7,
        tx_unix_ms = Some 2000, delta_ms = None, rssi_dbm = Some (- 60)\<rparr>] 200
    = Inr \<lparr>n_packets = 2, mean_rssi = Fin (- 55), loss_count = 198, loss_pct = Fin 99,
        printed = Some \<lparr>first_counter = 7, last_counter = 7, duration_s = Fin 1,
           min_rssi = Some (- 60), max_rssi = Some (- 50), mean_delta = NaN,
           min_delta = None, max_delta = None\<rparr>\<rparr>
   \<and> tx_counter (hd (records_sorted
     [\<lparr>file_name = Some ''a.log'', scan_cycle = None, rx_unix_ms = None, tx_counter = None,
        tx_unix_ms = Some 1000, delta_ms = None, rssi_dbm = Some (- 50)\<rparr>,
      \<lparr>file_name = Some ''a.log'', scan_cycle = None, rx_unix_ms = None, tx_counter = Some 7,
        tx_unix_ms = Some 2000, delta_ms = None, rssi_dbm = Some (- 60)\<rparr>])) = None"
  by code_simp

text \<open>
  C3, amended. For a list in which at least one record holds a counter, the summary
  sorts the records by \<open>tx_unix_ms\<close> ascending, a missing value counting as 0, and
  keeps the input order among equal keys. The first and last counters reported are the
  counters of the first and of the last record of that order that hold a counter, and
  the time span is computed from the first and the last record of that order.
\<close>

theorem summarize_records_order:
  assumes "\<exists>r\<in>set recs. tx_counter r \<noteq> None"
  shows "\<exists>s rep. summarize_records recs e = Inr s \<and> printed s = Some rep
     \<and> sorted (map tx_key (records_sorted recs))
     \<and> mset (records_sorted recs) = mset recs
     \<and> (\<forall>k. filter (\<lambda>r. tx_key r = k) (records_sorted recs)
            = filter (\<lambda>r. tx_key r = k) recs)
     \<and> tx_counter (hd (filter (\<lambda>r. tx_counter r \<noteq> None) (records_sorted recs)))
          = Some (first_counter rep)
     \<and> tx_counter (last (filter (\<lambda>r. tx_counter r \<noteq> None) (records_sorted recs)))
          = Some (last_counter rep)
     \<and> duration_s rep = duration_of (tx_unix_ms (hd (records_sorted recs)))
                             (tx_unix_ms (last (records_sorted recs)))"
proof -
  from assms have ne: "present tx_counter (records_sorted recs) \<noteq> []"
    by (simp add: present_empty_iff records_sorted_props)
  show ?thesis
    using has_counter_nonempty[OF assms] present_hd[OF ne] present_last[OF ne]
    by (simp add: summarize_records_def summary_body_returns[OF assms] records_sorted_props)
qed

theorem summarize_records_order_witness:
  "tx_counter
       \<lparr>file_name = None, scan_cycle = None, rx_unix_ms = None, tx_counter = Some 7,
          tx_unix_ms = Some 2000, delta_ms = None, rssi_dbm = Some (- 60)\<rparr> \<noteq> None
   \<and> records_sorted
       [\<lparr>file_name = None, scan_cycle = None, rx_unix_ms = None, tx_counter = Some 7,
          tx_unix_ms = Some 2000, delta_ms = None, rssi_dbm = Some (- 60)\<rparr>,
        \<lparr>file_name = None, scan_cycle = None, rx_unix_ms = None, tx_counter = Some 3,
          tx_unix_ms = None, delta_ms = None, rssi_dbm = Some (- 50)\<rparr>]
     = [\<lparr>file_name = None, scan_cycle = None, rx_unix_ms = None, tx_counter = Some 3,
          tx_unix_ms = None, delta_ms = None, rssi_dbm = Some (- 50)\<rparr>,
        \<lparr>file_name = None, scan_cycle = None, rx_unix_ms = None, tx_counter = Some 7,
          tx_unix_ms = Some 2000, delta_ms = None, rssi_dbm = Some (- 60)\<rparr>]
   \<and> (\<exists>s rep. summarize_records
       [\<lparr>file_name = None, scan_cycle = None, rx_unix_ms = None, tx_counter = Some 7,
          tx_unix_ms = Some 2000, delta_ms = None, rssi_dbm = Some (- 60)\<rparr>,
        \<lparr>file_name = None, scan_cycle = None, rx_unix_ms = None, tx_counter = Some 3,
          tx_unix_ms = None, delta_ms = None, rssi_dbm = Some (- 50)\<rparr>] 200 = Inr s
        \<and> printed s = Some rep \<and> first_counter rep = 3 \<and> last_counter rep = 7
        \<and> duration_s rep = NaN)"
proof -
  have srt: "records_sorted
       [\<lparr>file_name = None, scan_cycle = None, rx_unix_ms = None, tx_counter = Some 7,
          tx_unix_ms = Some 2000, delta_ms = None, rssi_dbm = Some (- 60)\<rparr>,
        \<lparr>file_name = None, scan_cycle = None, rx_unix_ms = None, tx_counter = Some 3,
          tx_unix_ms = None, delta_ms = None, rssi_dbm = Some (- 50)\<rparr>]
     = [\<lparr>file_name = None, scan_cycle = None, rx_unix_ms = None, tx_counter = Some 3,
          tx_unix_ms = None, delta_ms = None, rssi_dbm = Some (- 50)\<rparr>,
        \<lparr>file_name = None, scan_cycle = None, rx_unix_ms = None, tx_counter = Some 7,
          tx_unix_ms = Some 2000, delta_ms = None, rssi_dbm = Some (- 60)\<rparr>]"
    by code_simp
  show ?thesis
    using summarize_records_order
      [where recs = "[\<lparr>file_name = None, scan_cycle = None, rx_unix_ms = None, tx_counter = Some 7,
          tx_unix_ms = Some 2000, delta_ms = None, rssi_dbm = Some (- 60)\<rparr>,
        \<lparr>file_name = None, scan_cycle = None, rx_unix_ms = None, tx_counter = Some 3,
          tx_unix_ms = None, delta_ms = None, rssi_dbm = Some (- 50)\<rparr>]"
         and e = 200]
    by (auto simp: srt duration_of_def)
qed

subsection \<open>A list in which no record holds a counter\<close>

text \<open>
  C6. The summary filters the counters with \<open>if "tx_counter" in r\<close> and then reads
  \<open>counters[0]\<close> with no test for the empty list, as it has for the RSSI and delta
  values. A log of one block with an RSSI line only gives one complete record without a
  counter, and on that list both versions of \<open>summarize_records\<close> raise IndexError.
\<close>

theorem summarize_records_raises_without_counter:
  "parse_log ''a.log'' [''=== TARGET BLE DEVICE DETECTED ==='', ''RSSI: -60 dBm'', []]
    = Inr [\<lparr>file_name = Some ''a.log'', scan_cycle = None, rx_unix_ms = None,
             tx_counter = None, tx_unix_ms = None, delta_ms = None,
             rssi_dbm = Some (- 60)\<rparr>]
   \<and> summarize_records
       [\<lparr>file_name = Some ''a.log'', scan_cycle = None, rx_unix_ms = None,
          tx_counter = None, tx_unix_ms = None, delta_ms = None,
          rssi_dbm = Some (- 60)\<rparr>] 200
     = Inl IndexError
   \<and> summarize_records_single
       [\<lparr>file_name = Some ''a.log'', scan_cycle = None, rx_unix_ms = None,
          tx_counter = None, tx_unix_ms = None, delta_ms = None,
          rssi_dbm = Some (- 60)\<rparr>]
     = Inl IndexError"
  by code_simp

subsection \<open>The time span\<close>

text \<open>
  C10. For a list that is not empty, when the first or the last record of the sorted
  order has no \<open>tx_unix_ms\<close>, or has the value 0, every summary that is printed reports
  the time span NaN, in both scripts: the value 0 is taken as the absent one. The
  summary is printed whenever some record holds a counter.
\<close>

theorem summarize_records_zero_timestamp_nan:
  assumes "recs \<noteq> []"
    and "tx_unix_ms (hd (records_sorted recs)) = None
       \<or> tx_unix_ms (hd (records_sorted recs)) = Some 0
       \<or> tx_unix_ms (last (records_sorted recs)) = None
       \<or> tx_unix_ms (last (records_sorted recs)) = Some 0"
  shows "(\<forall>s. summarize_records recs e = Inr s \<longrightarrow>
            (\<exists>rep. printed s = Some rep \<and> duration_s rep = NaN))
       \<and> (\<forall>s. summarize_records_single recs = Inr (Some s) \<longrightarrow>
            (\<exists>rep. printed s = Some rep \<and> duration_s rep = NaN))
       \<and> ((\<exists>r\<in>set recs. tx_counter r \<noteq> None) \<longrightarrow>
            (\<exists>s. summarize_records recs e = Inr s) \<and>
            (\<exists>s. summarize_records_single recs = Inr (Some s)))"
proof (cases "\<exists>r\<in>set recs. tx_counter r \<noteq> None")
  case True
  show ?thesis
    using assms duration_of_nan[OF assms(2)]
    by (auto simp: summarize_records_def summarize_records_single_def
        summary_body_returns[OF True])
next
  case False
  then have "\<forall>r\<in>set recs. tx_counter r = None" by simp
  from summary_body_raises[OF this] show ?thesis
    using assms(1) False by (simp add: summarize_records_def summarize_records_single_def)
qed

theorem summarize_records_zero_timestamp_nan_witness:
  "[(new_packet None)\<lparr>tx_counter := Some 1, tx_unix_ms := Some 0, rssi_dbm := Some (- 50)\<rparr>,
    (new_packet None)\<lparr>tx_counter := Some 2, tx_unix_ms := Some 5000, rssi_dbm := Some (- 60)\<rparr>]
     \<noteq> []
   \<and> tx_unix_ms (hd (records_sorted
       [(new_packet None)\<lparr>tx_counter := Some 1, tx_unix_ms := Some 0,
          rssi_dbm := Some (- 50)\<rparr>,
        (new_packet None)\<lparr>tx_counter := Some 2, tx_unix_ms := Some 5000,
          rssi_dbm := Some (- 60)\<rparr>])) = Some 0
   \<and> summarize_records
       [(new_packet None)\<lparr>tx_counter := Some 1, tx_unix_ms := Some 0,
          rssi_dbm := Some (- 50)\<rparr>,
        (new_packet None)\<lparr>tx_counter := Some 2, tx_unix_ms := Some 5000,
          rssi_dbm := Some (- 60)\<rparr>] 200
     = Inr \<lparr>n_packets = 2, mean_rssi = Fin (- 55), loss_count = 198, loss_pct = Fin 99,
        printed = Some \<lparr>first_counter = 1, last_counter = 2, duration_s = NaN,
           min_rssi = Some (- 60), max_rssi = Some (- 50), mean_delta = NaN,
           min_delta = None, max_delta = None\<rparr>\<rparr>"
proof -
  have hd0: "tx_unix_ms (hd (records_sorted
       [(new_packet None)\<lparr>tx_counter := Some 1, tx_unix_ms := Some 0,
          rssi_dbm := Some (- 50)\<rparr>,
        (new_packet None)\<lparr>tx_counter := Some 2, tx_unix_ms := Some 5000,
          rssi_dbm := Some (- 60)\<rparr>])) = Some 0"
    by code_simp
  have run: "summarize_records
       [(new_packet None)\<lparr>tx_counter := Some 1, tx_unix_ms := Some 0,
          rssi_dbm := Some (- 50)\<rparr>,
        (new_packet None)\<lparr>tx_counter := Some 2, tx_unix_ms := Some 5000,
          rssi_dbm := Some (- 60)\<rparr>] 200
     = Inr \<lparr>n_packets = 2, mean_rssi = Fin (- 55), loss_count = 198, loss_pct = Fin 99,
        printed = Some \<lparr>first_counter = 1, last_counter = 2, duration_s = NaN,
           min_rssi = Some (- 60), max_rssi = Some (- 50), mean_delta = NaN,
           min_delta = None, max_delta = None\<rparr>\<rparr>"
    by code_simp
  show ?thesis
    using summarize_records_zero_timestamp_nan
      [where recs = "[(new_packet None)\<lparr>tx_counter := Some 1, tx_unix_ms := Some 0,
          rssi_dbm := Some (- 50)\<rparr>,
        (new_packet None)\<lparr>tx_counter := Some 2, tx_unix_ms := Some 5000,
          rssi_dbm := Some (- 60)\<rparr>]" and e = 200]
      hd0 run
    by simp
qed

end
